theory Spec2Isabelle
  imports Main "HOL-Library.Word"
begin

unbundle bit_operations_syntax

section \<open>Data model\<close>

text \<open>
  The server receives a Node \<^verbatim>\<open>Buffer\<close> (a sequence of bytes) from the socket and
  works on it either as bytes (\<^verbatim>\<open>#parseMessage\<close>, \<^verbatim>\<open>#encodeReply\<close>) or, after
  \<^verbatim>\<open>data.toString()\<close>, as a JavaScript string, which is a sequence of 16-bit code
  units. Two variants of the class exist in the repository: the file
  \<^verbatim>\<open>src/unnamed/part_000\<close> (handshake and frame codec) and
  \<^verbatim>\<open>src/server/classes/WebSocketServer.js\<close> (handshake only). Functions that are the
  same text in both are modelled once; \<^verbatim>\<open>#generateHandshakeMsg\<close> differs in the
  response it builds and is modelled twice.
\<close>

type_synonym byte = "8 word"
type_synonym unit16 = "16 word"
type_synonym jsstring = "unit16 list"

datatype error = TypeError | RangeError

text \<open>A string literal of the source (ASCII), as a JavaScript string.\<close>

definition lit :: "string \<Rightarrow> jsstring" where
  "lit s = map (\<lambda>c. of_nat (of_char c)) s"

abbreviation CR :: unit16 where "CR \<equiv> 0x0D"
abbreviation LF :: unit16 where "LF \<equiv> 0x0A"

subsection \<open>\<^verbatim>\<open>Buffer.prototype.toString()\<close>: UTF-8 decoding\<close>

text \<open>
  \<^verbatim>\<open>data.toString()\<close> decodes the buffer as UTF-8. Every ill-formed maximal subpart
  becomes U+FFFD, a code point above U+FFFF becomes a surrogate pair, and a byte order
  mark is kept. The decoder state is the code point collected so far, the number of
  continuation bytes still needed, and the bounds for the next continuation byte.
\<close>

type_synonym utf8_state = "nat \<times> nat \<times> byte \<times> byte"

definition utf8_init :: utf8_state where
  "utf8_init = (0, 0, 0x80, 0xBF)"

definition codePointUnits :: "nat \<Rightarrow> jsstring" where
  "codePointUnits cp =
     (if cp < 0x10000 then [of_nat cp]
      else [of_nat (0xD800 + (cp - 0x10000) div 0x400), of_nat (0xDC00 + (cp - 0x10000) mod 0x400)])"

definition utf8_lead :: "byte \<Rightarrow> jsstring \<times> utf8_state" where
  "utf8_lead b =
     (if b \<le> 0x7F then ([ucast b], utf8_init)
      else if 0xC2 \<le> b \<and> b \<le> 0xDF then ([], (unat (b AND 0x1F), 1, 0x80, 0xBF))
      else if 0xE0 \<le> b \<and> b \<le> 0xEF then
        ([], (unat (b AND 0x0F), 2, if b = 0xE0 then 0xA0 else 0x80, if b = 0xED then 0x9F else 0xBF))
      else if 0xF0 \<le> b \<and> b \<le> 0xF4 then
        ([], (unat (b AND 0x07), 3, if b = 0xF0 then 0x90 else 0x80, if b = 0xF4 then 0x8F else 0xBF))
      else ([0xFFFD], utf8_init))"

fun utf8_decode :: "utf8_state \<Rightarrow> byte list \<Rightarrow> jsstring" where
  "utf8_decode (cp, need, lo, hi) [] = (if need = 0 then [] else [0xFFFD])"
| "utf8_decode (cp, need, lo, hi) (b # bs) =
     (if need = 0 then fst (utf8_lead b) @ utf8_decode (snd (utf8_lead b)) bs
      else if lo \<le> b \<and> b \<le> hi then
        (if need = 1 then codePointUnits (cp * 64 + unat (b AND 0x3F)) @ utf8_decode utf8_init bs
         else utf8_decode (cp * 64 + unat (b AND 0x3F), need - 1, 0x80, 0xBF) bs)
      else 0xFFFD # fst (utf8_lead b) @ utf8_decode (snd (utf8_lead b)) bs)"

definition toString :: "byte list \<Rightarrow> jsstring" where
  "toString data = utf8_decode utf8_init data"

subsection \<open>String methods used by the server\<close>

text \<open>\<^verbatim>\<open>str.split('\n')\<close>: the lines between line feeds; never an empty array.\<close>

fun split_LF :: "jsstring \<Rightarrow> jsstring list" where
  "split_LF [] = [[]]"
| "split_LF (c # cs) =
     (if c = LF then [] # split_LF cs
      else (case split_LF cs of [] \<Rightarrow> [[c]] | line # rest \<Rightarrow> (c # line) # rest))"

text \<open>\<^verbatim>\<open>str.startsWith(pat, 0)\<close> and \<^verbatim>\<open>str.includes(pat)\<close>.\<close>

fun startsWith :: "jsstring \<Rightarrow> jsstring \<Rightarrow> bool" where
  "startsWith s [] = True"
| "startsWith [] (p # ps) = False"
| "startsWith (c # cs) (p # ps) = (c = p \<and> startsWith cs ps)"

fun includes_str :: "jsstring \<Rightarrow> jsstring \<Rightarrow> bool" where
  "includes_str [] pat = startsWith [] pat"
| "includes_str (c # cs) pat = (startsWith (c # cs) pat \<or> includes_str cs pat)"

text \<open>\<^verbatim>\<open>str.substr(19)\<close> drops the first 19 code units; \<^verbatim>\<open>str.slice(0, -1)\<close> drops the
  last one (and leaves the empty string empty).\<close>

definition substr :: "jsstring \<Rightarrow> nat \<Rightarrow> jsstring" where
  "substr s n = drop n s"

definition slice_0_m1 :: "jsstring \<Rightarrow> jsstring" where
  "slice_0_m1 s = butlast s"

section \<open>The accept key: SHA-1 and base64\<close>

text \<open>
  \<^verbatim>\<open>require('crypto').createHash('sha1').update(s, 'binary').digest('base64')\<close>.
  The 'binary' (latin1) encoding keeps the low byte of every code unit. SHA-1 is FIPS
  180-4 on 32-bit words, held here as naturals below \<open>2^32\<close> with the wrap-around
  written out.
\<close>

definition latin1 :: "jsstring \<Rightarrow> byte list" where
  "latin1 s = map ucast s"

definition add32 :: "nat \<Rightarrow> nat \<Rightarrow> nat" where
  "add32 x y = (x + y) mod 4294967296"

definition rotl32 :: "nat \<Rightarrow> nat \<Rightarrow> nat" where
  "rotl32 n x = (x * 2 ^ n) mod 4294967296 + x div 2 ^ (32 - n)"

definition sha1_f :: "nat \<Rightarrow> nat \<Rightarrow> nat \<Rightarrow> nat \<Rightarrow> nat" where
  "sha1_f t b c d =
     (if t < 20 then (b AND c) OR ((4294967295 - b) AND d)
      else if t < 40 then b XOR c XOR d
      else if t < 60 then (b AND c) OR (b AND d) OR (c AND d)
      else b XOR c XOR d)"

definition sha1_k :: "nat \<Rightarrow> nat" where
  "sha1_k t =
     (if t < 20 then 0x5A827999
      else if t < 40 then 0x6ED9EBA1
      else if t < 60 then 0x8F1BBCDC
      else 0xCA62C1D6)"

text \<open>The message schedule is built newest word first: \<open>W\<^sub>t\<close> from \<open>W\<^sub>t\<^sub>-\<^sub>3\<close>, \<open>W\<^sub>t\<^sub>-\<^sub>8\<close>,
  \<open>W\<^sub>t\<^sub>-\<^sub>1\<^sub>4\<close> and \<open>W\<^sub>t\<^sub>-\<^sub>1\<^sub>6\<close>.\<close>

definition sha1_w :: "nat list \<Rightarrow> nat" where
  "sha1_w ws = rotl32 1 (ws ! 2 XOR ws ! 7 XOR ws ! 13 XOR ws ! 15)"

definition sha1_schedule :: "nat list \<Rightarrow> nat list" where
  "sha1_schedule ws = rev (fold (\<lambda>t acc. sha1_w acc # acc) [16..<80] (rev ws))"

type_synonym sha1_state = "nat \<times> nat \<times> nat \<times> nat \<times> nat"

fun sha1_rounds :: "nat \<Rightarrow> nat list \<Rightarrow> sha1_state \<Rightarrow> sha1_state" where
  "sha1_rounds t [] s = s"
| "sha1_rounds t (w # ws) (a, b, c, d, e) =
     sha1_rounds (Suc t) ws
       (add32 (add32 (add32 (add32 (rotl32 5 a) (sha1_f t b c d)) e) (sha1_k t)) w,
        a, rotl32 30 b, c, d)"

fun be32 :: "nat list \<Rightarrow> nat list" where
  "be32 (b0 # b1 # b2 # b3 # bs) = (((b0 * 256 + b1) * 256 + b2) * 256 + b3) # be32 bs"
| "be32 _ = []"

fun sha1_block :: "sha1_state \<Rightarrow> nat list \<Rightarrow> sha1_state" where
  "sha1_block (h0, h1, h2, h3, h4) blk =
     (case sha1_rounds 0 (sha1_schedule (be32 blk)) (h0, h1, h2, h3, h4) of
        (a, b, c, d, e) \<Rightarrow> (add32 h0 a, add32 h1 b, add32 h2 c, add32 h3 d, add32 h4 e))"

function chunks64 :: "nat list \<Rightarrow> nat list list" where
  "chunks64 bs = (if bs = [] then [] else take 64 bs # chunks64 (drop 64 bs))"
  by pat_completeness auto
termination
  by (relation "measure length") auto

declare chunks64.simps [simp del]

definition be_bytes :: "nat \<Rightarrow> nat \<Rightarrow> nat list" where
  "be_bytes k w = map (\<lambda>i. (w div 256 ^ (k - 1 - i)) mod 256) [0..<k]"

definition sha1_pad :: "nat list \<Rightarrow> nat list" where
  "sha1_pad m =
     m @ [128] @ replicate ((119 - length m mod 64) mod 64) 0 @ be_bytes 8 (8 * length m)"

definition sha1 :: "byte list \<Rightarrow> byte list" where
  "sha1 m =
     (case fold (\<lambda>blk h. sha1_block h blk) (chunks64 (sha1_pad (map unat m)))
             (0x67452301, 0xEFCDAB89, 0x98BADCFE, 0x10325476, 0xC3D2E1F0) of
        (a, b, c, d, e) \<Rightarrow>
          map of_nat (be_bytes 4 a @ be_bytes 4 b @ be_bytes 4 c @ be_bytes 4 d @ be_bytes 4 e))"

definition b64_char :: "nat \<Rightarrow> char" where
  "b64_char n = ''ABCDEFGHIJKLMNOPQRSTUVWXYZabcdefghijklmnopqrstuvwxyz0123456789+/'' ! n"

fun base64 :: "byte list \<Rightarrow> string" where
  "base64 (a # b # c # rest) =
     b64_char (unat a div 4) #
     b64_char (unat a mod 4 * 16 + unat b div 16) #
     b64_char (unat b mod 16 * 4 + unat c div 64) #
     b64_char (unat c mod 64) # base64 rest"
| "base64 [a, b] =
     [b64_char (unat a div 4), b64_char (unat a mod 4 * 16 + unat b div 16),
      b64_char (unat b mod 16 * 4), CHR ''='']"
| "base64 [a] = [b64_char (unat a div 4), b64_char (unat a mod 4 * 16), CHR ''='', CHR ''='']"
| "base64 [] = []"

text \<open>The inner function \<^verbatim>\<open>generateServerKey(key)\<close> of \<^verbatim>\<open>#generateHandshakeMsg\<close>,
  the same in both files.\<close>

definition guid :: jsstring where
  "guid = lit ''258EAFA5-E914-47DA-95CA-C5AB0DC85B11''"

definition generateServerKey :: "jsstring \<Rightarrow> jsstring" where
  "generateServerKey key = lit (base64 (sha1 (latin1 (key @ guid))))"

section \<open>Handshake\<close>

text \<open>
  The \<^verbatim>\<open>forEach\<close> over the header lines that looks for the client key: \<^verbatim>\<open>clientKey\<close>
  starts as \<^verbatim>\<open>null\<close> and is assigned at every line that starts with
  \<^verbatim>\<open>Sec-WebSocket-Key:\<close>.
\<close>

fun clientKey_forEach :: "jsstring list \<Rightarrow> jsstring option \<Rightarrow> jsstring option" where
  "clientKey_forEach [] clientKey = clientKey"
| "clientKey_forEach (headerLine # rest) clientKey =
     clientKey_forEach rest
       (if startsWith headerLine (lit ''Sec-WebSocket-Key:'')
        then Some (slice_0_m1 (substr headerLine 19))
        else clientKey)"

text \<open>\<^verbatim>\<open>#generateHandshakeMsg\<close> of \<^verbatim>\<open>src/unnamed/part_000\<close>.\<close>

definition generateHandshakeMsg :: "byte list \<Rightarrow> jsstring" where
  "generateHandshakeMsg data =
     (case clientKey_forEach (split_LF (toString data)) None of
        None \<Rightarrow> lit ''HTTP/1.1 400 Bad Request''
      | Some clientKey \<Rightarrow>
          lit ''HTTP/1.1 101 Switching Protocols'' @ [CR, LF] @
          lit ''Upgrade: websocket'' @ [CR, LF] @
          lit ''Connection: Upgrade'' @ [CR, LF] @
          lit ''Sec-WebSocket-Accept: '' @ generateServerKey clientKey @ [CR, LF, CR, LF])"

text \<open>\<^verbatim>\<open>#generateHandshakeMsg\<close> of \<^verbatim>\<open>src/server/classes/WebSocketServer.js\<close>.\<close>

definition generateHandshakeMsg_WebSocketServer_js :: "byte list \<Rightarrow> jsstring" where
  "generateHandshakeMsg_WebSocketServer_js data =
     (case clientKey_forEach (split_LF (toString data)) None of
        None \<Rightarrow> lit ''HTTP/1.1 400 Bad Request''
      | Some clientKey \<Rightarrow>
          lit ''HTTP/1.1 101 Switching Protocols'' @ [LF] @
          lit ''Upgrade: websocket'' @ [LF] @
          lit ''Connection: Upgrade'' @ [LF] @
          lit ''Sec-WebSocket-Accept: '' @ generateServerKey clientKey)"

section \<open>Classification of a chunk\<close>

text \<open>
  \<^verbatim>\<open>#isHttp\<close>: \<^verbatim>\<open>data.toString().split('\n')[0].includes('HTTP/1.1')\<close>. Element 0 of
  an empty array would be \<^verbatim>\<open>undefined\<close> and the method call on it a \<^verbatim>\<open>TypeError\<close>.
\<close>

definition isHttp :: "byte list \<Rightarrow> error + bool" where
  "isHttp data =
     (case split_LF (toString data) of
        [] \<Rightarrow> Inl TypeError
      | first # _ \<Rightarrow> Inr (includes_str first (lit ''HTTP/1.1'')))"

text \<open>\<^verbatim>\<open>#isSocketUpgradeRequest\<close>: a \<^verbatim>\<open>forEach\<close> over the lines that sets a flag.\<close>

fun isUpgrade_forEach :: "jsstring list \<Rightarrow> bool \<Rightarrow> bool" where
  "isUpgrade_forEach [] isUpgrade = isUpgrade"
| "isUpgrade_forEach (headerLine # rest) isUpgrade =
     isUpgrade_forEach rest
       (if includes_str headerLine (lit ''Upgrade: websocket'') then True else isUpgrade)"

definition isSocketUpgradeRequest :: "byte list \<Rightarrow> bool" where
  "isSocketUpgradeRequest data = isUpgrade_forEach (split_LF (toString data)) False"

section \<open>Frame codec (\<^verbatim>\<open>src/unnamed/part_000\<close>)\<close>

subsection \<open>\<^verbatim>\<open>#parseMessage\<close>\<close>

text \<open>
  \<^verbatim>\<open>bytes[i]\<close> on a \<^verbatim>\<open>Buffer\<close>: an index past the end reads \<^verbatim>\<open>undefined\<close>, which the
  operators \<^verbatim>\<open>&\<close> and \<^verbatim>\<open>^\<close> convert to 0. Nothing is raised.
\<close>

definition byteAt :: "byte list \<Rightarrow> nat \<Rightarrow> byte" where
  "byteAt bytes i = (if i < length bytes then bytes ! i else 0)"

definition fromCharCode :: "byte \<Rightarrow> unit16" where
  "fromCharCode b = ucast b"

text \<open>The \<^verbatim>\<open>for\<close> loop: \<open>i\<close> runs from \<open>dataStart\<close> up to \<open>stop = dataStart + length\<close>.\<close>

function parseMessage_for ::
  "byte list \<Rightarrow> nat \<Rightarrow> nat \<Rightarrow> nat \<Rightarrow> nat \<Rightarrow> jsstring \<Rightarrow> jsstring" where
  "parseMessage_for bytes maskStart dataStart stop i returnString =
     (if i < stop
      then parseMessage_for bytes maskStart dataStart stop (i + 1)
             (returnString @
              [fromCharCode (byteAt bytes i XOR byteAt bytes (maskStart + ((i - dataStart) mod 4)))])
      else returnString)"
  by pat_completeness auto
termination
  by (relation "measure (\<lambda>(bytes, maskStart, dataStart, stop, i, returnString). stop - i)") auto

declare parseMessage_for.simps [simp del]

definition parseMessage :: "byte list \<Rightarrow> jsstring" where
  "parseMessage buffer =
     (let bytes = buffer;
          len = unat (byteAt bytes 1 AND 127);
          maskStart = 2;
          dataStart = maskStart + 4
      in parseMessage_for bytes maskStart dataStart (dataStart + len) dataStart [])"

subsection \<open>\<^verbatim>\<open>JSON.stringify\<close> of a string\<close>

definition isHighSurrogate :: "unit16 \<Rightarrow> bool" where
  "isHighSurrogate c = (0xD800 \<le> c \<and> c \<le> 0xDBFF)"

definition isLowSurrogate :: "unit16 \<Rightarrow> bool" where
  "isLowSurrogate c = (0xDC00 \<le> c \<and> c \<le> 0xDFFF)"

definition hexDigit :: "nat \<Rightarrow> unit16" where
  "hexDigit n = of_nat (of_char (''0123456789abcdef'' ! n))"

text \<open>A backslash, \<^verbatim>\<open>u\<close> and four lowercase hexadecimal digits.\<close>

definition unicodeEscape :: "unit16 \<Rightarrow> jsstring" where
  "unicodeEscape c =
     [0x5C, 0x75, hexDigit (unat c div 4096), hexDigit (unat c div 256 mod 16),
      hexDigit (unat c div 16 mod 16), hexDigit (unat c mod 16)]"

text \<open>The escapes of \<^verbatim>\<open>\b \t \n \f \r\<close>, of the double quote and of the backslash;
  other control characters and lone surrogates as \<^verbatim>\<open>\uXXXX\<close>.\<close>

definition quoteChar :: "unit16 \<Rightarrow> jsstring" where
  "quoteChar c =
     (if c = 0x08 then [0x5C, 0x62]
      else if c = 0x09 then [0x5C, 0x74]
      else if c = 0x0A then [0x5C, 0x6E]
      else if c = 0x0C then [0x5C, 0x66]
      else if c = 0x0D then [0x5C, 0x72]
      else if c = 0x22 then [0x5C, 0x22]
      else if c = 0x5C then [0x5C, 0x5C]
      else if c < 0x20 \<or> isHighSurrogate c \<or> isLowSurrogate c then unicodeEscape c
      else [c])"

fun quoteChars :: "jsstring \<Rightarrow> jsstring" where
  "quoteChars (c # d # rest) =
     (if isHighSurrogate c \<and> isLowSurrogate d then c # d # quoteChars rest
      else quoteChar c @ quoteChars (d # rest))"
| "quoteChars [c] = quoteChar c"
| "quoteChars [] = []"

definition JSON_stringify :: "jsstring \<Rightarrow> jsstring" where
  "JSON_stringify s = [0x22] @ quoteChars s @ [0x22]"

subsection \<open>UTF-8 encoding and the \<^verbatim>\<open>Buffer\<close> methods\<close>

definition utf8_unit :: "unit16 \<Rightarrow> byte list" where
  "utf8_unit c =
     (if unat c < 0x80 then [ucast c]
      else if unat c < 0x800 then [of_nat (0xC0 + unat c div 64), of_nat (0x80 + unat c mod 64)]
      else if isHighSurrogate c \<or> isLowSurrogate c then [0xEF, 0xBF, 0xBD]
      else [of_nat (0xE0 + unat c div 4096), of_nat (0x80 + unat c div 64 mod 64),
            of_nat (0x80 + unat c mod 64)])"

definition pairCodePoint :: "unit16 \<Rightarrow> unit16 \<Rightarrow> nat" where
  "pairCodePoint c d = 0x10000 + (unat c - 0xD800) * 0x400 + (unat d - 0xDC00)"

definition utf8_pair :: "unit16 \<Rightarrow> unit16 \<Rightarrow> byte list" where
  "utf8_pair c d =
     [of_nat (0xF0 + pairCodePoint c d div 262144),
      of_nat (0x80 + pairCodePoint c d div 4096 mod 64),
      of_nat (0x80 + pairCodePoint c d div 64 mod 64),
      of_nat (0x80 + pairCodePoint c d mod 64)]"

fun utf8_encode :: "jsstring \<Rightarrow> byte list" where
  "utf8_encode (c # d # rest) =
     (if isHighSurrogate c \<and> isLowSurrogate d then utf8_pair c d @ utf8_encode rest
      else utf8_unit c @ utf8_encode (d # rest))"
| "utf8_encode [c] = utf8_unit c"
| "utf8_encode [] = []"

text \<open>\<^verbatim>\<open>Buffer.byteLength(str)\<close>: the number of bytes of the UTF-8 encoding.\<close>

definition Buffer_byteLength :: "jsstring \<Rightarrow> nat" where
  "Buffer_byteLength s = length (utf8_encode s)"

text \<open>\<^verbatim>\<open>Buffer.alloc(size)\<close>: a zero-filled buffer.\<close>

definition Buffer_alloc :: "nat \<Rightarrow> byte list" where
  "Buffer_alloc n = replicate n 0"

text \<open>\<^verbatim>\<open>buf.writeUInt8(value, offset)\<close> and \<^verbatim>\<open>buf.writeUInt16BE(value, offset)\<close> raise a
  \<^verbatim>\<open>RangeError\<close> when the value does not fit or the offset is out of range.\<close>

definition writeUInt8 :: "byte list \<Rightarrow> nat \<Rightarrow> nat \<Rightarrow> error + byte list" where
  "writeUInt8 buf v offset =
     (if 255 < v \<or> length buf < offset + 1 then Inl RangeError
      else Inr (buf[offset := of_nat v]))"

definition writeUInt16BE :: "byte list \<Rightarrow> nat \<Rightarrow> nat \<Rightarrow> error + byte list" where
  "writeUInt16BE buf v offset =
     (if 65535 < v \<or> length buf < offset + 2 then Inl RangeError
      else Inr (buf[offset := of_nat (v div 256), offset + 1 := of_nat (v mod 256)]))"

text \<open>\<^verbatim>\<open>buf.write(string, offset)\<close> writes the UTF-8 bytes of the string from
  \<open>offset\<close> on: as many whole characters as fit in the rest of the buffer.\<close>

fun utf8_encode_upto :: "nat \<Rightarrow> jsstring \<Rightarrow> byte list" where
  "utf8_encode_upto room (c # d # rest) =
     (if isHighSurrogate c \<and> isLowSurrogate d
      then (if 4 \<le> room then utf8_pair c d @ utf8_encode_upto (room - 4) rest else [])
      else (if length (utf8_unit c) \<le> room
            then utf8_unit c @ utf8_encode_upto (room - length (utf8_unit c)) (d # rest)
            else []))"
| "utf8_encode_upto room [c] = (if length (utf8_unit c) \<le> room then utf8_unit c else [])"
| "utf8_encode_upto room [] = []"

definition Buffer_write :: "byte list \<Rightarrow> jsstring \<Rightarrow> nat \<Rightarrow> error + byte list" where
  "Buffer_write buf string offset =
     (if length buf < offset then Inl RangeError
      else Inr (take offset buf @ utf8_encode_upto (length buf - offset) string @
                drop (offset + length (utf8_encode_upto (length buf - offset) string)) buf))"

subsection \<open>\<^verbatim>\<open>#encodeReply\<close>\<close>

definition encodeReply :: "jsstring \<Rightarrow> error + byte list" where
  "encodeReply string =
     (let json = JSON_stringify string;
          jsonByteLength = Buffer_byteLength json;
          lengthByteCount = (if jsonByteLength < 126 then 0 else 2);
          payloadLength = (if lengthByteCount = 0 then jsonByteLength else 126);
          buffer = Buffer_alloc (2 + lengthByteCount + jsonByteLength)
      in case writeUInt8 buffer 0b10000001 0 of
           Inl e \<Rightarrow> Inl e
         | Inr buffer1 \<Rightarrow>
             (case writeUInt8 buffer1 payloadLength 1 of
                Inl e \<Rightarrow> Inl e
              | Inr buffer2 \<Rightarrow>
                  (if lengthByteCount > 0
                   then (case writeUInt16BE buffer2 jsonByteLength 2 of
                           Inl e \<Rightarrow> Inl e
                         | Inr buffer3 \<Rightarrow> Buffer_write buffer3 json (2 + lengthByteCount))
                   else Buffer_write buffer2 json 2)))"

section \<open>\<^verbatim>\<open>#generateServerReply\<close> (\<^verbatim>\<open>src/unnamed/part_000\<close>)\<close>

text \<open>
  The reply is \<^verbatim>\<open>null\<close>, the handshake string or the frame buffer. The function also
  writes one line to the console; the model returns it with the reply.
\<close>

datatype reply = Null | Str jsstring | Buf "byte list"

definition generateServerReply :: "byte list \<Rightarrow> error + (jsstring \<times> reply)" where
  "generateServerReply data =
     (case isHttp data of
        Inl e \<Rightarrow> Inl e
      | Inr True \<Rightarrow>
          (if isSocketUpgradeRequest data
           then Inr (lit ''WebSocketServer received a upgrade request: '' @ [LF] @ toString data,
                     Str (generateHandshakeMsg data))
           else Inr (lit ''WebSocketServer received a HTTP request:'' @ [LF] @ lit '' '' @ toString data,
                     Null))
      | Inr False \<Rightarrow>
          (let msg = parseMessage data
           in case encodeReply (lit ''Hello from a WebSocket Server!'') of
                Inl e \<Rightarrow> Inl e
              | Inr returnString \<Rightarrow>
                  Inr (lit ''The server received some data: '' @ [LF] @ msg, Buf returnString)))"

section \<open>The frame of a client\<close>

text \<open>
  The repository has no client. The specification describes the frame a client sends for
  a payload of fewer than 126 bytes: the byte \<open>0x81\<close>, the byte \<open>0x80 | length\<close>, the
  four bytes of the masking key, and the payload with byte \<open>i\<close> XOR-ed with byte
  \<open>i mod 4\<close> of the key.
\<close>

definition maskPayload :: "byte list \<Rightarrow> byte list \<Rightarrow> byte list" where
  "maskPayload key payload = map (\<lambda>i. payload ! i XOR key ! (i mod 4)) [0..<length payload]"

definition clientFrame_spec :: "byte list \<Rightarrow> byte list \<Rightarrow> byte list" where
  "clientFrame_spec key payload =
     [0x81, 0x80 OR of_nat (length payload)] @ key @ maskPayload key payload"

section \<open>Sample inputs\<close>

text \<open>ASCII text as the bytes of a chunk.\<close>

definition ascii :: "string \<Rightarrow> byte list" where
  "ascii s = map (\<lambda>c. of_nat (of_char c)) s"

text \<open>An upgrade request with the key of the protocol's example.\<close>

definition upgradeRequest_sample :: "byte list" where
  "upgradeRequest_sample =
     ascii ''GET /chat HTTP/1.1'' @ [0x0D, 0x0A] @
     ascii ''Upgrade: websocket'' @ [0x0D, 0x0A] @
     ascii ''Sec-WebSocket-Key: dGhlIHNhbXBsZSBub25jZQ=='' @ [0x0D, 0x0A, 0x0D, 0x0A]"

text \<open>An upgrade request without a key, one with two keys, and a request that is no upgrade.\<close>

definition upgradeRequest_noKey :: "byte list" where
  "upgradeRequest_noKey =
     ascii ''GET /chat HTTP/1.1'' @ [0x0D, 0x0A] @
     ascii ''Upgrade: websocket'' @ [0x0D, 0x0A, 0x0D, 0x0A]"

definition upgradeRequest_twoKeys :: "byte list" where
  "upgradeRequest_twoKeys =
     ascii ''GET /chat HTTP/1.1'' @ [0x0D, 0x0A] @
     ascii ''Sec-WebSocket-Key: Zmlyc3Q='' @ [0x0D, 0x0A] @
     ascii ''Upgrade: websocket'' @ [0x0D, 0x0A] @
     ascii ''Sec-WebSocket-Key: c2Vjb25k'' @ [0x0D, 0x0A, 0x0D, 0x0A]"

definition plainRequest_sample :: "byte list" where
  "plainRequest_sample =
     ascii ''GET /index.html HTTP/1.1'' @ [0x0D, 0x0A] @
     ascii ''Host: localhost'' @ [0x0D, 0x0A, 0x0D, 0x0A]"

text \<open>The masked frame of the text \<^verbatim>\<open>Hi!\<close> under the key 1, 2, 3, 4, and the same frame
  cut after its first payload byte.\<close>

definition frame_Hi :: "byte list" where
  "frame_Hi = [0x81, 0x83, 1, 2, 3, 4, 0x49, 0x6B, 0x22]"

definition frame_cut :: "byte list" where
  "frame_cut = [0x81, 0x83, 1, 2, 3, 4, 0x49]"

text \<open>The fixed reply of the server, and a text of 124 characters, whose JSON form has
  126 bytes.\<close>

definition hello :: jsstring where
  "hello = lit ''Hello from a WebSocket Server!''"

definition text124 :: jsstring where
  "text124 = lit ''aaaaaaaaaaaaaaaaaaaaaaaaaaaaaaaaaaaaaaaaaaaaaaaaaaaaaaaaaaaaaaaaaaaaaaaaaaaaaaaaaaaaaaaaaaaaaaaaaaaaaaaaaaaaaaaaaaaaaaaaaaaa''"

section \<open>Facts about bytes and code units\<close>

lemma or_0x80_and_127: "((0x80 :: byte) OR x) AND 127 = x AND 127"
proof -
  have "(0x80 :: byte) AND 127 = 0" by simp
  then show ?thesis by (simp add: bit.conj_disj_distrib2)
qed

lemma of_nat_and_127:
  assumes "n < 128"
  shows "(of_nat n :: byte) AND 127 = of_nat n"
proof -
  have m: "(127 :: byte) = mask 7" by (simp add: mask_eq_exp_minus_1)
  have t: "take_bit 7 n = n" using assms by (simp add: take_bit_nat_eq_self)
  have "(of_nat n :: byte) AND 127 = of_nat (take_bit 7 n)"
    unfolding m by (simp only: take_bit_eq_mask [symmetric] take_bit_of_nat)
  then show ?thesis by (simp only: t)
qed

lemma unat_of_nat_and_127:
  assumes "n < 128"
  shows "unat ((of_nat n :: byte) AND 127) = n"
  using assms by (simp add: of_nat_and_127 unat_of_nat)

lemma short_length_byte:
  assumes "n < 126"
  shows "unat ((0x80 OR of_nat n :: byte) AND 127) = n"
  using assms by (simp add: or_0x80_and_127 unat_of_nat_and_127)

lemma mask_bit_clear:
  assumes "n < 128"
  shows "(of_nat n :: byte) AND 0x80 = 0"
proof -
  have "(of_nat n :: byte) AND 0x80 = ((of_nat n :: byte) AND 127) AND 0x80"
    using assms by (simp only: of_nat_and_127)
  also have "\<dots> = (of_nat n :: byte) AND (127 AND 0x80)"
    by (simp only: and.assoc)
  also have "\<dots> = 0" by simp
  finally show ?thesis .
qed

lemma unat_byte_of_nat: "n < 256 \<Longrightarrow> unat (of_nat n :: byte) = n"
  by (simp add: unat_of_nat)

lemma ucast_byte_unit16:
  assumes "(c :: unit16) < 0x100"
  shows "(ucast (ucast c :: byte) :: unit16) = c"
proof -
  have "unat c < 256" using assms by (simp add: word_less_nat_alt)
  then have "unat (ucast (ucast c :: byte) :: unit16) = unat c"
    by (simp add: unsigned_ucast_eq unsigned_take_bit_eq take_bit_nat_eq_self)
  then show ?thesis by (simp only: word_unat_eq_iff)
qed

section \<open>Properties of the string methods and of the header loops\<close>

lemma split_LF_nonempty: "split_LF s \<noteq> []"
  by (induction s) (auto split: list.splits)

lemma startsWith_iff: "startsWith s p \<longleftrightarrow> (\<exists>r. s = p @ r)"
  by (induction s p rule: startsWith.induct) auto

lemma includes_str_iff: "includes_str s p \<longleftrightarrow> (\<exists>a b. s = a @ p @ b)"
proof (induction s)
  case Nil
  then show ?case by (cases p) auto
next
  case (Cons c cs)
  show ?case
  proof
    assume "includes_str (c # cs) p"
    then consider "startsWith (c # cs) p" | "includes_str cs p" by auto
    then show "\<exists>a b. c # cs = a @ p @ b"
    proof cases
      case 1
      then obtain r where "c # cs = p @ r" by (auto simp: startsWith_iff)
      then have "c # cs = [] @ p @ r" by simp
      then show ?thesis by blast
    next
      case 2
      then obtain a b where "cs = a @ p @ b" using Cons.IH by blast
      then have "c # cs = (c # a) @ p @ b" by simp
      then show ?thesis by blast
    qed
  next
    assume "\<exists>a b. c # cs = a @ p @ b"
    then obtain a b where ab: "c # cs = a @ p @ b" by blast
    show "includes_str (c # cs) p"
    proof (cases a)
      case Nil
      with ab have "startsWith (c # cs) p" by (auto simp: startsWith_iff)
      then show ?thesis by simp
    next
      case (Cons x a')
      with ab have "cs = a' @ p @ b" by simp
      then have "includes_str cs p" using Cons.IH by blast
      then show ?thesis by simp
    qed
  qed
qed

lemma isUpgrade_forEach_iff:
  "isUpgrade_forEach ls b \<longleftrightarrow> b \<or> (\<exists>l \<in> set ls. includes_str l (lit ''Upgrade: websocket''))"
  by (induction ls arbitrary: b) auto

lemma clientKey_forEach_append:
  "clientKey_forEach (xs @ ys) k = clientKey_forEach ys (clientKey_forEach xs k)"
  by (induction xs arbitrary: k) auto

lemma clientKey_forEach_filter:
  "clientKey_forEach ls k =
     (case filter (\<lambda>l. startsWith l (lit ''Sec-WebSocket-Key:'')) ls of
        [] \<Rightarrow> k
      | m # ms \<Rightarrow> Some (slice_0_m1 (substr (last (m # ms)) 19)))"
proof (induction ls rule: rev_induct)
  case Nil
  then show ?case by simp
next
  case (snoc x xs)
  then show ?case
    by (auto simp: clientKey_forEach_append split: list.splits)
qed

lemma clientKey_forEach_None_iff:
  "clientKey_forEach ls k = None \<longleftrightarrow>
     k = None \<and> \<not> (\<exists>l \<in> set ls. startsWith l (lit ''Sec-WebSocket-Key:''))"
  by (induction ls arbitrary: k) auto

lemma lit_append: "lit (a @ b) = lit a @ lit b"
  by (simp add: lit_def)

lemma startsWith_append: "startsWith (p @ r) p"
  by (simp add: startsWith_iff)

lemma lit_400_neq_101:
  "lit ''HTTP/1.1 400 Bad Request'' \<noteq> lit ''HTTP/1.1 101 Switching Protocols'' @ r"
  by (simp add: lit_def)

text \<open>The lines of the sample chunks.\<close>

lemma lines_upgradeRequest_sample:
  "split_LF (toString upgradeRequest_sample) =
     [lit ''GET /chat HTTP/1.1'' @ [CR], lit ''Upgrade: websocket'' @ [CR],
      lit ''Sec-WebSocket-Key: dGhlIHNhbXBsZSBub25jZQ=='' @ [CR], [CR], []]"
  by (simp add: upgradeRequest_sample_def ascii_def lit_def toString_def utf8_init_def utf8_lead_def)

lemma lines_upgradeRequest_noKey:
  "split_LF (toString upgradeRequest_noKey) =
     [lit ''GET /chat HTTP/1.1'' @ [CR], lit ''Upgrade: websocket'' @ [CR], [CR], []]"
  by (simp add: upgradeRequest_noKey_def ascii_def lit_def toString_def utf8_init_def utf8_lead_def)

lemma lines_upgradeRequest_twoKeys:
  "split_LF (toString upgradeRequest_twoKeys) =
     [lit ''GET /chat HTTP/1.1'' @ [CR], lit ''Sec-WebSocket-Key: Zmlyc3Q='' @ [CR],
      lit ''Upgrade: websocket'' @ [CR], lit ''Sec-WebSocket-Key: c2Vjb25k'' @ [CR], [CR], []]"
  by (simp add: upgradeRequest_twoKeys_def ascii_def lit_def toString_def utf8_init_def utf8_lead_def)

lemma lines_plainRequest_sample:
  "split_LF (toString plainRequest_sample) =
     [lit ''GET /index.html HTTP/1.1'' @ [CR], lit ''Host: localhost'' @ [CR], [CR], []]"
  by (simp add: plainRequest_sample_def ascii_def lit_def toString_def utf8_init_def utf8_lead_def)

lemma lines_frame_Hi:
  "split_LF (toString frame_Hi) = [[0xFFFD, 0xFFFD, 1, 2, 3, 4, 0x49, 0x6B, 0x22]]"
  by (simp add: frame_Hi_def toString_def utf8_init_def utf8_lead_def)

lemma clientKey_upgradeRequest_sample:
  "clientKey_forEach (split_LF (toString upgradeRequest_sample)) None =
     Some (lit ''dGhlIHNhbXBsZSBub25jZQ=='')"
  by (simp add: lines_upgradeRequest_sample lit_def slice_0_m1_def substr_def)

section \<open>Evaluation of the accept key\<close>

lemma upt_0_8: "[0..<8] = [0, 1, 2, 3, 4, 5, 6, 7 :: nat]"
  by (simp add: upt_rec)

lemma upt_0_4: "[0..<4] = [0, 1, 2, 3 :: nat]"
  by (simp add: upt_rec)

lemma replicate_unroll: "replicate n x = (if n = 0 then [] else x # replicate (n - 1) x)"
  by (cases n) simp_all

lemma sha1_sample:
  "sha1 (latin1 (lit ''dGhlIHNhbXBsZSBub25jZQ=='' @ guid)) =
     [0xB3, 0x7A, 0x4F, 0x2C, 0xC0, 0x62, 0x4F, 0x16, 0x90, 0xF6,
      0x46, 0x06, 0xCF, 0x38, 0x59, 0x45, 0xB2, 0xBE, 0xC4, 0xEA]"
  by (simp add: sha1_def latin1_def lit_def guid_def sha1_pad_def be_bytes_def upt_0_8 upt_0_4
      replicate_unroll rotl32_def sha1_f_def sha1_k_def add32_def sha1_w_def sha1_schedule_def
      chunks64.simps)

text \<open>
  C1. For the handshake key \<^verbatim>\<open>dGhlIHNhbXBsZSBub25jZQ==\<close>, the accept key, base64 of
  the SHA-1 digest of the key followed by the GUID
  \<^verbatim>\<open>258EAFA5-E914-47DA-95CA-C5AB0DC85B11\<close>, is \<^verbatim>\<open>s3pPLMBiTxaQ9kYGzzhZRbK+xOo=\<close>.
\<close>

theorem generateServerKey_test_vector:
  "generateServerKey (lit ''dGhlIHNhbXBsZSBub25jZQ=='') = lit ''s3pPLMBiTxaQ9kYGzzhZRbK+xOo=''"
  unfolding generateServerKey_def sha1_sample
  by (simp add: lit_def b64_char_def)

lemma accept_key_sample:
  "generateServerKey (lit ''dGhlIHNhbXBsZSBub25jZQ=='') = lit ''s3pPLMBiTxaQ9kYGzzhZRbK+xOo=''"
  unfolding generateServerKey_def sha1_sample
  by (simp add: lit_def b64_char_def)

section \<open>Properties of \<^verbatim>\<open>#generateHandshakeMsg\<close>\<close>

text \<open>
  With a key line in the chunk, \<^verbatim>\<open>#generateHandshakeMsg\<close> of \<^verbatim>\<open>src/unnamed/part_000\<close>
  ends every line of the response with CR LF and the response with an empty line.
\<close>

lemma generateHandshakeMsg_part_000_crlf:
  assumes "\<exists>l \<in> set (split_LF (toString data)). startsWith l (lit ''Sec-WebSocket-Key:'')"
  shows "\<exists>clientKey.
           clientKey_forEach (split_LF (toString data)) None = Some clientKey \<and>
           generateHandshakeMsg data =
             lit ''HTTP/1.1 101 Switching Protocols'' @ [CR, LF] @
             lit ''Upgrade: websocket'' @ [CR, LF] @
             lit ''Connection: Upgrade'' @ [CR, LF] @
             lit ''Sec-WebSocket-Accept: '' @ generateServerKey clientKey @ [CR, LF, CR, LF]"
proof -
  have "clientKey_forEach (split_LF (toString data)) None \<noteq> None"
    using assms by (simp add: clientKey_forEach_None_iff)
  then obtain k where "clientKey_forEach (split_LF (toString data)) None = Some k"
    by blast
  then show ?thesis
    by (simp add: generateHandshakeMsg_def)
qed

lemma generateHandshakeMsg_sample:
  "generateHandshakeMsg upgradeRequest_sample =
     lit ''HTTP/1.1 101 Switching Protocols'' @ [CR, LF] @
     lit ''Upgrade: websocket'' @ [CR, LF] @
     lit ''Connection: Upgrade'' @ [CR, LF] @
     lit ''Sec-WebSocket-Accept: s3pPLMBiTxaQ9kYGzzhZRbK+xOo='' @ [CR, LF, CR, LF]"
  by (simp add: generateHandshakeMsg_def clientKey_upgradeRequest_sample accept_key_sample
      lit_append [symmetric])

text \<open>
  C2. The claim: for a chunk with a line that starts with \<^verbatim>\<open>Sec-WebSocket-Key:\<close> the
  response is the status line and the three headers, each ended by CR LF, and a final
  CR LF. \<^verbatim>\<open>#generateHandshakeMsg\<close> of \<^verbatim>\<open>src/unnamed/part_000\<close> returns that string (the
  two lemmas above). \<^verbatim>\<open>#generateHandshakeMsg\<close> of
  \<^verbatim>\<open>src/server/classes/WebSocketServer.js\<close> does not: on the sample request its lines
  end with LF alone and nothing follows the accept key.
\<close>

theorem generateHandshakeMsg_WebSocketServer_js_sample:
  "generateHandshakeMsg_WebSocketServer_js upgradeRequest_sample =
     lit ''HTTP/1.1 101 Switching Protocols'' @ [LF] @
     lit ''Upgrade: websocket'' @ [LF] @
     lit ''Connection: Upgrade'' @ [LF] @
     lit ''Sec-WebSocket-Accept: s3pPLMBiTxaQ9kYGzzhZRbK+xOo='' \<and>
   generateHandshakeMsg_WebSocketServer_js upgradeRequest_sample \<noteq>
     lit ''HTTP/1.1 101 Switching Protocols'' @ [CR, LF] @
     lit ''Upgrade: websocket'' @ [CR, LF] @
     lit ''Connection: Upgrade'' @ [CR, LF] @
     lit ''Sec-WebSocket-Accept: '' @ generateServerKey (lit ''dGhlIHNhbXBsZSBub25jZQ=='') @
     [CR, LF, CR, LF]"
  by (simp add: generateHandshakeMsg_WebSocketServer_js_def clientKey_upgradeRequest_sample
      accept_key_sample)
    (simp add: lit_def)

text \<open>
  C3. When no line of the chunk starts with \<^verbatim>\<open>Sec-WebSocket-Key:\<close>,
  \<^verbatim>\<open>#generateHandshakeMsg\<close> (in both files) returns the string
  \<^verbatim>\<open>HTTP/1.1 400 Bad Request\<close>; when some line does, it returns a response that starts
  with \<^verbatim>\<open>HTTP/1.1 101 Switching Protocols\<close> and is not the rejection: the missing key is
  the only case of failure, and the failure is a value.
\<close>

theorem missing_key_is_400:
  "(\<not> (\<exists>l \<in> set (split_LF (toString data)). startsWith l (lit ''Sec-WebSocket-Key:'')) \<longrightarrow>
      generateHandshakeMsg data = lit ''HTTP/1.1 400 Bad Request'' \<and>
      generateHandshakeMsg_WebSocketServer_js data = lit ''HTTP/1.1 400 Bad Request'') \<and>
   ((\<exists>l \<in> set (split_LF (toString data)). startsWith l (lit ''Sec-WebSocket-Key:'')) \<longrightarrow>
      startsWith (generateHandshakeMsg data) (lit ''HTTP/1.1 101 Switching Protocols'') \<and>
      startsWith (generateHandshakeMsg_WebSocketServer_js data) (lit ''HTTP/1.1 101 Switching Protocols'') \<and>
      generateHandshakeMsg data \<noteq> lit ''HTTP/1.1 400 Bad Request'' \<and>
      generateHandshakeMsg_WebSocketServer_js data \<noteq> lit ''HTTP/1.1 400 Bad Request'')"
proof (intro conjI impI)
  assume "\<not> (\<exists>l \<in> set (split_LF (toString data)). startsWith l (lit ''Sec-WebSocket-Key:''))"
  then have none: "clientKey_forEach (split_LF (toString data)) None = None"
    by (simp add: clientKey_forEach_None_iff)
  show "generateHandshakeMsg data = lit ''HTTP/1.1 400 Bad Request''"
    by (simp add: generateHandshakeMsg_def none)
  show "generateHandshakeMsg_WebSocketServer_js data = lit ''HTTP/1.1 400 Bad Request''"
    by (simp add: generateHandshakeMsg_WebSocketServer_js_def none)
next
  assume "\<exists>l \<in> set (split_LF (toString data)). startsWith l (lit ''Sec-WebSocket-Key:'')"
  then have "clientKey_forEach (split_LF (toString data)) None \<noteq> None"
    by (simp add: clientKey_forEach_None_iff)
  then obtain k where some: "clientKey_forEach (split_LF (toString data)) None = Some k"
    by blast
  have a: "generateHandshakeMsg data = lit ''HTTP/1.1 101 Switching Protocols'' @
             ([CR, LF] @ lit ''Upgrade: websocket'' @ [CR, LF] @ lit ''Connection: Upgrade'' @ [CR, LF] @
              lit ''Sec-WebSocket-Accept: '' @ generateServerKey k @ [CR, LF, CR, LF])"
    by (simp add: generateHandshakeMsg_def some)
  have b: "generateHandshakeMsg_WebSocketServer_js data = lit ''HTTP/1.1 101 Switching Protocols'' @
             ([LF] @ lit ''Upgrade: websocket'' @ [LF] @ lit ''Connection: Upgrade'' @ [LF] @
              lit ''Sec-WebSocket-Accept: '' @ generateServerKey k)"
    by (simp add: generateHandshakeMsg_WebSocketServer_js_def some)
  show "startsWith (generateHandshakeMsg data) (lit ''HTTP/1.1 101 Switching Protocols'')"
    unfolding a by (rule startsWith_append)
  show "startsWith (generateHandshakeMsg_WebSocketServer_js data) (lit ''HTTP/1.1 101 Switching Protocols'')"
    unfolding b by (rule startsWith_append)
  show "generateHandshakeMsg data \<noteq> lit ''HTTP/1.1 400 Bad Request''"
    unfolding a using lit_400_neq_101 by metis
  show "generateHandshakeMsg_WebSocketServer_js data \<noteq> lit ''HTTP/1.1 400 Bad Request''"
    unfolding b using lit_400_neq_101 by metis
qed

theorem missing_key_is_400_witness:
  "\<not> (\<exists>l \<in> set (split_LF (toString upgradeRequest_noKey)). startsWith l (lit ''Sec-WebSocket-Key:'')) \<and>
   generateHandshakeMsg upgradeRequest_noKey = lit ''HTTP/1.1 400 Bad Request'' \<and>
   generateHandshakeMsg_WebSocketServer_js upgradeRequest_noKey = lit ''HTTP/1.1 400 Bad Request'' \<and>
   (\<exists>l \<in> set (split_LF (toString upgradeRequest_sample)). startsWith l (lit ''Sec-WebSocket-Key:'')) \<and>
   generateHandshakeMsg upgradeRequest_sample \<noteq> lit ''HTTP/1.1 400 Bad Request'' \<and>
   generateHandshakeMsg_WebSocketServer_js upgradeRequest_sample \<noteq> lit ''HTTP/1.1 400 Bad Request''"
proof -
  have h1: "\<not> (\<exists>l \<in> set (split_LF (toString upgradeRequest_noKey)).
              startsWith l (lit ''Sec-WebSocket-Key:''))"
    by (simp add: lines_upgradeRequest_noKey lit_def)
  have h2: "\<exists>l \<in> set (split_LF (toString upgradeRequest_sample)).
              startsWith l (lit ''Sec-WebSocket-Key:'')"
    by (simp add: lines_upgradeRequest_sample lit_def)
  show ?thesis
    using h1 h2 missing_key_is_400 [of upgradeRequest_noKey] missing_key_is_400 [of upgradeRequest_sample]
    by blast
qed

text \<open>
  C10. When the chunk has lines that start with \<^verbatim>\<open>Sec-WebSocket-Key:\<close>, the accept
  key in the response (of both files) is derived from the last of them: every later
  match overwrites the key of an earlier one.
\<close>

theorem last_key_line_wins:
  assumes "filter (\<lambda>l. startsWith l (lit ''Sec-WebSocket-Key:'')) (split_LF (toString data)) = keyLines"
    and "keyLines \<noteq> []"
  shows "generateHandshakeMsg data =
           lit ''HTTP/1.1 101 Switching Protocols'' @ [CR, LF] @
           lit ''Upgrade: websocket'' @ [CR, LF] @
           lit ''Connection: Upgrade'' @ [CR, LF] @
           lit ''Sec-WebSocket-Accept: '' @
           generateServerKey (slice_0_m1 (substr (last keyLines) 19)) @ [CR, LF, CR, LF] \<and>
         generateHandshakeMsg_WebSocketServer_js data =
           lit ''HTTP/1.1 101 Switching Protocols'' @ [LF] @
           lit ''Upgrade: websocket'' @ [LF] @
           lit ''Connection: Upgrade'' @ [LF] @
           lit ''Sec-WebSocket-Accept: '' @
           generateServerKey (slice_0_m1 (substr (last keyLines) 19))"
proof -
  obtain m ms where "keyLines = m # ms" using assms(2) by (cases keyLines) auto
  then have "clientKey_forEach (split_LF (toString data)) None =
               Some (slice_0_m1 (substr (last keyLines) 19))"
    using assms(1) by (simp add: clientKey_forEach_filter)
  then show ?thesis
    by (simp add: generateHandshakeMsg_def generateHandshakeMsg_WebSocketServer_js_def)
qed

theorem last_key_line_wins_witness:
  "filter (\<lambda>l. startsWith l (lit ''Sec-WebSocket-Key:'')) (split_LF (toString upgradeRequest_twoKeys)) =
     [lit ''Sec-WebSocket-Key: Zmlyc3Q='' @ [CR], lit ''Sec-WebSocket-Key: c2Vjb25k'' @ [CR]] \<and>
   generateHandshakeMsg upgradeRequest_twoKeys =
     lit ''HTTP/1.1 101 Switching Protocols'' @ [CR, LF] @
     lit ''Upgrade: websocket'' @ [CR, LF] @
     lit ''Connection: Upgrade'' @ [CR, LF] @
     lit ''Sec-WebSocket-Accept: '' @ generateServerKey (lit ''c2Vjb25k'') @ [CR, LF, CR, LF] \<and>
   generateHandshakeMsg_WebSocketServer_js upgradeRequest_twoKeys =
     lit ''HTTP/1.1 101 Switching Protocols'' @ [LF] @
     lit ''Upgrade: websocket'' @ [LF] @
     lit ''Connection: Upgrade'' @ [LF] @
     lit ''Sec-WebSocket-Accept: '' @ generateServerKey (lit ''c2Vjb25k'')"
proof -
  let ?ks = "[lit ''Sec-WebSocket-Key: Zmlyc3Q='' @ [CR], lit ''Sec-WebSocket-Key: c2Vjb25k'' @ [CR]]"
  have f: "filter (\<lambda>l. startsWith l (lit ''Sec-WebSocket-Key:''))
             (split_LF (toString upgradeRequest_twoKeys)) = ?ks"
    by (simp add: lines_upgradeRequest_twoKeys lit_def)
  have ne: "?ks \<noteq> []" by simp
  have k: "slice_0_m1 (substr (last ?ks) 19) = lit ''c2Vjb25k''"
    by (simp add: slice_0_m1_def substr_def lit_def)
  show ?thesis
    using f last_key_line_wins [OF f ne] unfolding k by simp
qed

section \<open>Properties of \<^verbatim>\<open>#encodeReply\<close>\<close>

lemma utf8_encode_upto_fits:
  "length (utf8_encode s) \<le> room \<Longrightarrow> utf8_encode_upto room s = utf8_encode s"
proof (induction s arbitrary: room rule: utf8_encode.induct)
  case (1 c d rest)
  show ?case
  proof (cases "isHighSurrogate c \<and> isLowSurrogate d")
    case True
    with 1 show ?thesis by (auto simp: utf8_pair_def)
  next
    case False
    with 1 show ?thesis by auto
  qed
qed auto

lemma Buffer_write_exact:
  assumes "length buf = offset + length (utf8_encode s)"
  shows "Buffer_write buf s offset = Inr (take offset buf @ utf8_encode s)"
proof -
  have "utf8_encode_upto (length buf - offset) s = utf8_encode s"
    using assms by (simp add: utf8_encode_upto_fits)
  then show ?thesis using assms by (simp add: Buffer_write_def)
qed

lemma replicate_2_plus: "replicate (2 + 0 + n) x = x # x # replicate n x"
proof -
  have "2 + 0 + n = Suc (Suc n)" by simp
  then show ?thesis by (simp only: replicate.simps)
qed

lemma replicate_4_plus: "replicate (2 + 2 + n) x = x # x # x # x # replicate n x"
proof -
  have "2 + 2 + n = Suc (Suc (Suc (Suc n)))" by simp
  then show ?thesis by (simp only: replicate.simps)
qed

lemma update_0: "(a # xs)[0 := w] = w # xs"
  by simp

lemma update_1: "(a # b # xs)[1 := w] = a # w # xs"
  by simp

lemma update_2_3: "(a # b # c # d # xs)[2 := y, 2 + 1 := z] = a # b # y # z # xs"
proof -
  have "(2::nat) = Suc (Suc 0)" "(2::nat) + 1 = Suc (Suc (Suc 0))" by simp_all
  then show ?thesis by (simp only: list_update_code)
qed

lemma take_4_Cons: "take (2 + 2) (a # b # c # d # xs) = [a, b, c, d]"
proof -
  have "(2::nat) + 2 = Suc (Suc (Suc (Suc 0)))" by simp
  then show ?thesis by (simp only: take_Suc_Cons take_0)
qed

lemma encodeReply_short:
  assumes "length (utf8_encode (JSON_stringify s)) < 126"
  shows "encodeReply s =
           Inr ([0x81, of_nat (length (utf8_encode (JSON_stringify s)))] @ utf8_encode (JSON_stringify s))"
proof -
  define p where "p = utf8_encode (JSON_stringify s)"
  define L where "L = length p"
  define buf0 where "buf0 = Buffer_alloc (2 + 0 + L)"
  define buf1 where "buf1 = buf0[0 := (0x81::byte)]"
  define buf2 where "buf2 = buf1[1 := (of_nat L :: byte)]"
  have L: "L < 126" using assms by (simp add: L_def p_def)
  have rep: "buf0 = 0 # 0 # replicate L 0"
    by (simp add: buf0_def Buffer_alloc_def numeral_2_eq_2)
  have b2: "buf2 = 0x81 # of_nat L # replicate L 0"
    by (simp add: buf2_def buf1_def rep)
  have w1: "writeUInt8 buf0 0b10000001 0 = Inr buf1"
    by (simp add: writeUInt8_def buf1_def rep)
  have w2: "writeUInt8 buf1 L 1 = Inr buf2"
    using L by (simp add: writeUInt8_def buf2_def buf1_def rep)
  have w3: "Buffer_write buf2 (JSON_stringify s) 2 = Inr (take 2 buf2 @ utf8_encode (JSON_stringify s))"
    by (rule Buffer_write_exact) (simp add: b2 L_def p_def)
  have tk: "take 2 buf2 = [0x81, of_nat L]"
    by (simp add: b2 numeral_2_eq_2)
  have "encodeReply s = Buffer_write buf2 (JSON_stringify s) 2"
    unfolding encodeReply_def Let_def Buffer_byteLength_def p_def [symmetric] L_def [symmetric]
    using L by (simp only: if_True if_False buf0_def [symmetric] w1 w2 sum.case refl less_irrefl)
  then show ?thesis
    unfolding w3 tk by (simp add: L_def p_def)
qed

lemma encodeReply_extended:
  assumes "126 \<le> length (utf8_encode (JSON_stringify s))"
    and "length (utf8_encode (JSON_stringify s)) \<le> 65535"
  shows "encodeReply s =
           Inr ([0x81, 126, of_nat (length (utf8_encode (JSON_stringify s)) div 256),
                 of_nat (length (utf8_encode (JSON_stringify s)) mod 256)] @
                utf8_encode (JSON_stringify s))"
proof -
  define p where "p = utf8_encode (JSON_stringify s)"
  define L where "L = length p"
  define buf0 where "buf0 = Buffer_alloc (2 + 2 + L)"
  define buf1 where "buf1 = buf0[0 := (0x81::byte)]"
  define buf2 where "buf2 = buf1[1 := (of_nat 126 :: byte)]"
  define buf3 where "buf3 = buf2[2 := (of_nat (L div 256) :: byte), 2 + 1 := of_nat (L mod 256)]"
  have L: "\<not> L < 126" "\<not> 65535 < L" using assms by (simp_all add: L_def p_def)
  have rep: "buf0 = 0 # 0 # 0 # 0 # replicate L 0"
    unfolding buf0_def Buffer_alloc_def by (rule replicate_4_plus)
  have b2: "buf2 = 0x81 # 126 # 0 # 0 # replicate L 0"
    unfolding buf2_def buf1_def rep update_0 update_1 by simp
  have b3: "buf3 = 0x81 # 126 # of_nat (L div 256) # of_nat (L mod 256) # replicate L 0"
    unfolding buf3_def b2 by (rule update_2_3)
  have w1: "writeUInt8 buf0 0b10000001 0 = Inr buf1"
    by (simp add: writeUInt8_def buf1_def rep)
  have w2: "writeUInt8 buf1 126 1 = Inr buf2"
    by (simp add: writeUInt8_def buf2_def buf1_def rep)
  have w3: "writeUInt16BE buf2 L 2 = Inr buf3"
    using L by (simp add: writeUInt16BE_def buf3_def b2)
  have w4: "Buffer_write buf3 (JSON_stringify s) (2 + 2) = Inr (take (2 + 2) buf3 @ utf8_encode (JSON_stringify s))"
    by (rule Buffer_write_exact) (simp add: b3 L_def p_def)
  have tk: "take (2 + 2) buf3 = [0x81, 126, of_nat (L div 256), of_nat (L mod 256)]"
    unfolding b3 by (rule take_4_Cons)
  have pos: "(0::nat) < 2" "(2::nat) \<noteq> 0" by simp_all
  have "encodeReply s = Buffer_write buf3 (JSON_stringify s) (2 + 2)"
    unfolding encodeReply_def Let_def Buffer_byteLength_def p_def [symmetric] L_def [symmetric]
    using L by (simp only: if_True if_False buf0_def [symmetric] w1 w2 w3 sum.case refl pos)
  then show ?thesis
    unfolding w4 tk by (simp add: L_def p_def)
qed

lemma encodeReply_too_long:
  assumes "65535 < length (utf8_encode (JSON_stringify s))"
  shows "encodeReply s = Inl RangeError"
proof -
  define p where "p = utf8_encode (JSON_stringify s)"
  define L where "L = length p"
  define buf0 where "buf0 = Buffer_alloc (2 + 2 + L)"
  define buf1 where "buf1 = buf0[0 := (0x81::byte)]"
  define buf2 where "buf2 = buf1[1 := (of_nat 126 :: byte)]"
  have L: "\<not> L < 126" "65535 < L" using assms by (simp_all add: L_def p_def)
  have rep: "buf0 = 0 # 0 # 0 # 0 # replicate L 0"
    unfolding buf0_def Buffer_alloc_def by (rule replicate_4_plus)
  have w1: "writeUInt8 buf0 0b10000001 0 = Inr buf1"
    by (simp add: writeUInt8_def buf1_def rep)
  have w2: "writeUInt8 buf1 126 1 = Inr buf2"
    by (simp add: writeUInt8_def buf2_def buf1_def rep)
  have w3: "writeUInt16BE buf2 L 2 = Inl RangeError"
    using L by (simp add: writeUInt16BE_def)
  have pos: "(0::nat) < 2" "(2::nat) \<noteq> 0" by simp_all
  show ?thesis
    unfolding encodeReply_def Let_def Buffer_byteLength_def p_def [symmetric] L_def [symmetric]
    using L by (simp only: if_True if_False buf0_def [symmetric] w1 w2 w3 sum.case refl pos)
qed

lemma hello_payload:
  "utf8_encode (JSON_stringify hello) = [0x22] @ ascii ''Hello from a WebSocket Server!'' @ [0x22]"
  by (simp add: hello_def JSON_stringify_def lit_def ascii_def quoteChar_def
      isHighSurrogate_def isLowSurrogate_def utf8_unit_def)

lemma hello_frame:
  "encodeReply hello = Inr ([0x81, 0x20, 0x22] @ ascii ''Hello from a WebSocket Server!'' @ [0x22])"
proof -
  have "length (utf8_encode (JSON_stringify hello)) = 32"
    unfolding hello_payload by (simp add: ascii_def)
  then show ?thesis
    using encodeReply_short [of hello] by (simp add: hello_payload)
qed

lemma hello_length: "Buffer_byteLength (JSON_stringify hello) = 32"
  unfolding Buffer_byteLength_def hello_payload by (simp add: ascii_def)

lemma text124_payload:
  "utf8_encode (JSON_stringify text124) = [0x22] @ ascii ''aaaaaaaaaaaaaaaaaaaaaaaaaaaaaaaaaaaaaaaaaaaaaaaaaaaaaaaaaaaaaaaaaaaaaaaaaaaaaaaaaaaaaaaaaaaaaaaaaaaaaaaaaaaaaaaaaaaaaaaaaaaa'' @ [0x22]"
  by (simp add: text124_def JSON_stringify_def lit_def ascii_def quoteChar_def
      isHighSurrogate_def isLowSurrogate_def utf8_unit_def)

lemma text124_length: "Buffer_byteLength (JSON_stringify text124) = 126"
  unfolding Buffer_byteLength_def text124_payload by (simp add: ascii_def)

text \<open>
  C7. Let \<open>L\<close> be the number of bytes of the UTF-8 encoding of the JSON form of the
  payload. When \<open>L < 126\<close>, \<^verbatim>\<open>#encodeReply\<close> returns a buffer of \<open>2 + L\<close> bytes: byte 0
  is \<open>0b10000001\<close>, byte 1 is \<open>L\<close> (its mask bit is 0), and the encoded payload starts
  at offset 2. When \<open>126 \<le> L \<le> 65535\<close>, it returns a buffer of \<open>4 + L\<close> bytes: byte 1
  is 126, bytes 2 and 3 hold \<open>L\<close> as a big-endian 16-bit number, and the encoded payload
  starts at offset 4.
\<close>

theorem encodeReply_layout:
  "(Buffer_byteLength (JSON_stringify s) < 126 \<longrightarrow>
      (\<exists>buf. encodeReply s = Inr buf \<and>
         length buf = 2 + Buffer_byteLength (JSON_stringify s) \<and>
         buf ! 0 = 0b10000001 \<and>
         unat (buf ! 1) = Buffer_byteLength (JSON_stringify s) \<and>
         buf ! 1 AND 0x80 = 0 \<and>
         drop 2 buf = utf8_encode (JSON_stringify s))) \<and>
   (126 \<le> Buffer_byteLength (JSON_stringify s) \<and> Buffer_byteLength (JSON_stringify s) \<le> 65535 \<longrightarrow>
      (\<exists>buf. encodeReply s = Inr buf \<and>
         length buf = 4 + Buffer_byteLength (JSON_stringify s) \<and>
         buf ! 0 = 0b10000001 \<and>
         buf ! 1 = 126 \<and>
         unat (buf ! 2) * 256 + unat (buf ! 3) = Buffer_byteLength (JSON_stringify s) \<and>
         drop 4 buf = utf8_encode (JSON_stringify s)))"
proof (intro conjI impI)
  let ?p = "utf8_encode (JSON_stringify s)"
  assume short: "Buffer_byteLength (JSON_stringify s) < 126"
  then have L: "length ?p < 126" by (simp add: Buffer_byteLength_def)
  then have "unat (of_nat (length ?p) :: byte) = length ?p"
    by (simp add: unat_byte_of_nat)
  then show "\<exists>buf. encodeReply s = Inr buf \<and>
         length buf = 2 + Buffer_byteLength (JSON_stringify s) \<and>
         buf ! 0 = 0b10000001 \<and>
         unat (buf ! 1) = Buffer_byteLength (JSON_stringify s) \<and>
         buf ! 1 AND 0x80 = 0 \<and>
         drop 2 buf = utf8_encode (JSON_stringify s)"
    using encodeReply_short [OF L] mask_bit_clear [of "length ?p"] L
    by (simp add: Buffer_byteLength_def)
next
  let ?p = "utf8_encode (JSON_stringify s)"
  assume "126 \<le> Buffer_byteLength (JSON_stringify s) \<and> Buffer_byteLength (JSON_stringify s) \<le> 65535"
  then have L: "126 \<le> length ?p" "length ?p \<le> 65535" by (simp_all add: Buffer_byteLength_def)
  have hi: "unat (of_nat (length ?p div 256) :: byte) = length ?p div 256"
    using L(2) by (simp add: unat_byte_of_nat)
  have lo: "unat (of_nat (length ?p mod 256) :: byte) = length ?p mod 256"
    by (simp add: unat_byte_of_nat)
  have "length ?p div 256 * 256 + length ?p mod 256 = length ?p" by simp
  then show "\<exists>buf. encodeReply s = Inr buf \<and>
         length buf = 4 + Buffer_byteLength (JSON_stringify s) \<and>
         buf ! 0 = 0b10000001 \<and>
         buf ! 1 = 126 \<and>
         unat (buf ! 2) * 256 + unat (buf ! 3) = Buffer_byteLength (JSON_stringify s) \<and>
         drop 4 buf = utf8_encode (JSON_stringify s)"
    using encodeReply_extended [OF L] hi lo
    by (simp add: Buffer_byteLength_def numeral_2_eq_2 numeral_3_eq_3)
qed

theorem encodeReply_layout_witness:
  "Buffer_byteLength (JSON_stringify hello) < 126 \<and>
   (\<exists>buf. encodeReply hello = Inr buf \<and> length buf = 34 \<and> buf ! 0 = 0x81 \<and>
      unat (buf ! 1) = 32 \<and> buf ! 1 AND 0x80 = 0 \<and> drop 2 buf = utf8_encode (JSON_stringify hello)) \<and>
   126 \<le> Buffer_byteLength (JSON_stringify text124) \<and>
   Buffer_byteLength (JSON_stringify text124) \<le> 65535 \<and>
   (\<exists>buf. encodeReply text124 = Inr buf \<and> length buf = 130 \<and> buf ! 0 = 0x81 \<and>
      buf ! 1 = 126 \<and> unat (buf ! 2) * 256 + unat (buf ! 3) = 126 \<and>
      drop 4 buf = utf8_encode (JSON_stringify text124))"
  using encodeReply_layout [of hello] encodeReply_layout [of text124]
  by (simp add: hello_length text124_length)

section \<open>Properties of \<^verbatim>\<open>#parseMessage\<close>\<close>

lemma parseMessage_for_map:
  "parseMessage_for bytes maskStart dataStart stop i acc =
     acc @ map (\<lambda>j. fromCharCode (byteAt bytes j XOR byteAt bytes (maskStart + ((j - dataStart) mod 4))))
             [i..<stop]"
proof (induction bytes maskStart dataStart stop i acc rule: parseMessage_for.induct)
  case (1 bytes maskStart dataStart stop i returnString)
  show ?case
  proof (cases "i < stop")
    case True
    then show ?thesis
      using 1 by (subst parseMessage_for.simps) (simp add: upt_conv_Cons)
  next
    case False
    then show ?thesis
      by (subst parseMessage_for.simps) simp
  qed
qed

lemma parseMessage_map:
  "parseMessage buffer =
     map (\<lambda>i. fromCharCode (byteAt buffer (6 + i) XOR byteAt buffer (2 + i mod 4)))
       [0..<unat (byteAt buffer 1 AND 127)]"
proof -
  have "[6..<6 + unat (byteAt buffer 1 AND 127)] = map (\<lambda>i. 6 + i) [0..<unat (byteAt buffer 1 AND 127)]"
    by (simp add: map_add_upt add.commute)
  then show ?thesis
    by (simp add: parseMessage_def Let_def parseMessage_for_map comp_def)
qed

lemma length_parseMessage: "length (parseMessage buffer) = unat (byteAt buffer 1 AND 127)"
  by (simp add: parseMessage_map)

lemma nth_parseMessage:
  "i < unat (byteAt buffer 1 AND 127) \<Longrightarrow>
     parseMessage buffer ! i = fromCharCode (byteAt buffer (6 + i) XOR byteAt buffer (2 + i mod 4))"
  by (simp add: parseMessage_map)

text \<open>
  C5. For a chunk of at least \<open>6 + L\<close> bytes, where \<open>L\<close> is byte 1 of the chunk with the
  high bit masked out, \<^verbatim>\<open>#parseMessage\<close> returns a string of exactly \<open>L\<close> code units,
  and code unit \<open>i\<close> is byte \<open>6 + i\<close> XOR byte \<open>2 + (i mod 4)\<close> of the chunk: the four
  bytes of the masking key at 2 to 5 are applied cyclically.
\<close>

theorem parseMessage_unmasks:
  assumes "6 + unat (chunk ! 1 AND 0x7F) \<le> length chunk"
  shows "length (parseMessage chunk) = unat (chunk ! 1 AND 0x7F) \<and>
         (\<forall>i < unat (chunk ! 1 AND 0x7F).
            parseMessage chunk ! i = ucast (chunk ! (6 + i) XOR chunk ! (2 + i mod 4)))"
proof -
  have b1: "byteAt chunk 1 = chunk ! 1"
    using assms by (simp add: byteAt_def)
  have "parseMessage chunk ! i = ucast (chunk ! (6 + i) XOR chunk ! (2 + i mod 4))"
    if "i < unat (chunk ! 1 AND 0x7F)" for i
  proof -
    have "6 + i < length chunk" using that assms by simp
    moreover have "2 + i mod 4 < length chunk"
    proof -
      have "i mod 4 < 4" by simp
      then show ?thesis using assms by linarith
    qed
    ultimately show ?thesis
      using that by (simp add: nth_parseMessage b1 byteAt_def fromCharCode_def)
  qed
  then show ?thesis
    using b1 by (simp add: length_parseMessage)
qed

theorem parseMessage_unmasks_witness:
  "6 + unat (frame_Hi ! 1 AND 0x7F) \<le> length frame_Hi \<and>
   length (parseMessage frame_Hi) = 3 \<and>
   parseMessage frame_Hi ! 0 = 0x48 \<and> parseMessage frame_Hi ! 1 = 0x69 \<and>
   parseMessage frame_Hi ! 2 = 0x21"
proof -
  have h: "6 + unat (frame_Hi ! 1 AND 0x7F) \<le> length frame_Hi"
    by (simp add: frame_Hi_def)
  have L: "unat (frame_Hi ! 1 AND 0x7F) = 3"
    by (simp add: frame_Hi_def)
  from parseMessage_unmasks [OF h]
  have len: "length (parseMessage frame_Hi) = unat (frame_Hi ! 1 AND 0x7F)"
    and nth: "\<And>i. i < unat (frame_Hi ! 1 AND 0x7F) \<Longrightarrow>
           parseMessage frame_Hi ! i = ucast (frame_Hi ! (6 + i) XOR frame_Hi ! (2 + i mod 4))"
    by blast+
  have "parseMessage frame_Hi ! 0 = 0x48"
    using nth [of 0] by (simp add: L) (simp add: frame_Hi_def)
  moreover have "parseMessage frame_Hi ! 1 = 0x69"
    using nth [of 1] by (simp add: L) (simp add: frame_Hi_def)
  moreover have "parseMessage frame_Hi ! 2 = 0x21"
    using nth [of 2] by (simp add: L) (simp add: frame_Hi_def)
  ultimately show ?thesis
    using h len L by simp
qed

lemma lit_Hi: "lit ''Hi!'' = [0x48, 0x69, 0x21]"
  by (simp add: lit_def)

text \<open>
  C6. For a payload string of fewer than 126 code units, each below 256 (one byte), and
  a masking key of four bytes, \<^verbatim>\<open>#parseMessage\<close> applied to the client frame of the
  payload under the key returns the payload string.
\<close>

theorem clientFrame_roundtrip:
  assumes "length s < 126" and "\<forall>c \<in> set s. c < 0x100" and "length key = 4"
  shows "parseMessage (clientFrame_spec key (latin1 s)) = s"
proof -
  let ?p = "latin1 s"
  let ?f = "clientFrame_spec key ?p"
  have lp: "length ?p = length s" by (simp add: latin1_def)
  have len: "unat (byteAt ?f 1 AND 127) = length s"
    using short_length_byte [OF assms(1)]
    by (simp add: clientFrame_spec_def byteAt_def lp)
  have flen: "length ?f = 6 + length s"
    using assms(3) by (simp add: clientFrame_spec_def maskPayload_def lp)
  have payload: "byteAt ?f (6 + i) = ?p ! i XOR key ! (i mod 4)" if "i < length s" for i
  proof -
    have "?f = ([0x81, 0x80 OR of_nat (length ?p)] @ key) @ maskPayload key ?p"
      by (simp add: clientFrame_spec_def)
    moreover have "length ([0x81, 0x80 OR of_nat (length ?p)] @ key) = 6"
      using assms(3) by simp
    ultimately have "?f ! (6 + i) = maskPayload key ?p ! i"
      by (metis nth_append_length_plus)
    then show ?thesis
      using that flen by (simp add: byteAt_def maskPayload_def lp)
  qed
  have mask: "byteAt ?f (2 + i mod 4) = key ! (i mod 4)" for i
  proof -
    have lt: "i mod 4 < length key" using assms(3) by simp
    have "?f = [0x81, 0x80 OR of_nat (length ?p)] @ (key @ maskPayload key ?p)"
      by (simp add: clientFrame_spec_def)
    moreover have "length [0x81 :: byte, 0x80 OR of_nat (length ?p)] = 2" by simp
    ultimately have "?f ! (2 + i mod 4) = (key @ maskPayload key ?p) ! (i mod 4)"
      by (metis nth_append_length_plus)
    also have "\<dots> = key ! (i mod 4)" using lt by (simp add: nth_append)
    finally have "?f ! (2 + i mod 4) = key ! (i mod 4)" .
    moreover have "2 + i mod 4 < length ?f" using lt flen assms(3) by linarith
    ultimately show ?thesis by (simp only: byteAt_def if_True)
  qed
  have unit: "fromCharCode (ucast c) = c" if "c \<in> set s" for c :: unit16
    using assms(2) that by (simp add: fromCharCode_def ucast_byte_unit16)
  show ?thesis
  proof (rule nth_equalityI)
    show "length (parseMessage ?f) = length s"
      using len by (simp add: length_parseMessage)
  next
    fix i assume "i < length (parseMessage ?f)"
    then have i: "i < length s" using len by (simp add: length_parseMessage)
    then have "i < unat (byteAt ?f 1 AND 127)" using len by simp
    then have "parseMessage ?f ! i = fromCharCode (byteAt ?f (6 + i) XOR byteAt ?f (2 + i mod 4))"
      by (rule nth_parseMessage)
    then have "parseMessage ?f ! i = fromCharCode ((?p ! i XOR key ! (i mod 4)) XOR key ! (i mod 4))"
      by (simp only: payload [OF i] mask)
    also have "\<dots> = fromCharCode (?p ! i)"
      by (simp add: xor.assoc)
    also have "\<dots> = s ! i"
      using i unit [of "s ! i"] by (simp add: latin1_def)
    finally show "parseMessage ?f ! i = s ! i" .
  qed
qed

theorem clientFrame_roundtrip_witness:
  "length (lit ''Hi!'') < 126 \<and> lit ''Hi!'' = [0x48, 0x69, 0x21] \<and>
   length [1, 2, 3, 4 :: byte] = 4 \<and>
   clientFrame_spec [1, 2, 3, 4] (latin1 (lit ''Hi!'')) = frame_Hi \<and>
   parseMessage frame_Hi = lit ''Hi!''"
proof -
  have h1: "length (lit ''Hi!'') < 126" by (simp add: lit_def)
  have h2: "\<forall>c \<in> set (lit ''Hi!''). c < 0x100" by (simp add: lit_def)
  have h3: "length [1, 2, 3, 4 :: byte] = 4" by simp
  have f: "clientFrame_spec [1, 2, 3, 4] (latin1 (lit ''Hi!'')) = frame_Hi"
    by (simp add: clientFrame_spec_def maskPayload_def latin1_def lit_def frame_Hi_def upt_rec)
  show ?thesis
    using h1 h3 f lit_Hi clientFrame_roundtrip [OF h1 h2 h3] by simp
qed

text \<open>
  C8. As amended. \<^verbatim>\<open>#parseMessage\<close> has no error result. For a chunk that is shorter than
  its header and declared payload length \<open>L\<close> (byte 1 with the high bit masked out, a
  missing byte read as 0), it returns an ordinary string of exactly \<open>L\<close> code units:
  code unit \<open>i\<close> is byte \<open>6 + i\<close> XOR byte \<open>2 + (i mod 4)\<close> while byte \<open>6 + i\<close> is in the
  chunk, and the key byte \<open>2 + (i mod 4)\<close> alone (0 when that is missing too) past the
  end of the chunk.
\<close>

theorem parseMessage_short_chunk:
  assumes "length chunk < 6 + unat (byteAt chunk 1 AND 0x7F)"
  shows "length (parseMessage chunk) = unat (byteAt chunk 1 AND 0x7F) \<and>
         (\<forall>i < unat (byteAt chunk 1 AND 0x7F).
            parseMessage chunk ! i =
              (if 6 + i < length chunk
               then ucast (chunk ! (6 + i) XOR byteAt chunk (2 + i mod 4))
               else ucast (byteAt chunk (2 + i mod 4))))"
  by (simp add: length_parseMessage nth_parseMessage fromCharCode_def byteAt_def)

theorem parseMessage_short_chunk_witness:
  "length frame_cut < 6 + unat (byteAt frame_cut 1 AND 0x7F) \<and>
   length (parseMessage frame_cut) = 3 \<and>
   parseMessage frame_cut ! 0 = 0x48 \<and> parseMessage frame_cut ! 1 = 2 \<and>
   parseMessage frame_cut ! 2 = 3"
proof -
  have h: "length frame_cut < 6 + unat (byteAt frame_cut 1 AND 0x7F)"
    by (simp add: frame_cut_def byteAt_def)
  have L: "unat (byteAt frame_cut 1 AND 0x7F) = 3"
    by (simp add: frame_cut_def byteAt_def)
  from parseMessage_short_chunk [OF h]
  have len: "length (parseMessage frame_cut) = unat (byteAt frame_cut 1 AND 0x7F)"
    and nth: "\<And>i. i < unat (byteAt frame_cut 1 AND 0x7F) \<Longrightarrow>
           parseMessage frame_cut ! i =
             (if 6 + i < length frame_cut
              then ucast (frame_cut ! (6 + i) XOR byteAt frame_cut (2 + i mod 4))
              else ucast (byteAt frame_cut (2 + i mod 4)))"
    by blast+
  have "parseMessage frame_cut ! 0 = 0x48"
    using nth [of 0] by (simp add: L) (simp add: frame_cut_def byteAt_def)
  moreover have "parseMessage frame_cut ! 1 = 2"
    using nth [of 1] by (simp add: L) (simp add: frame_cut_def byteAt_def)
  moreover have "parseMessage frame_cut ! 2 = 3"
    using nth [of 2] by (simp add: L) (simp add: frame_cut_def byteAt_def)
  ultimately show ?thesis
    using h len L by simp
qed

text \<open>
  The claim as stated, a distinct error result for such a chunk, fails on the frame of
  \<^verbatim>\<open>Hi!\<close> cut after its first payload byte: the result is a string of three code
  units, the same string that the complete frame with two zero bytes in place of the
  missing ones decodes to.
\<close>

theorem parseMessage_cut_frame:
  "length frame_cut < 6 + unat (frame_cut ! 1 AND 0x7F) \<and>
   parseMessage frame_cut = [0x48, 2, 3] \<and>
   parseMessage frame_cut = parseMessage (frame_cut @ [0, 0])"
  by (simp add: frame_cut_def parseMessage_map byteAt_def fromCharCode_def upt_rec)

text \<open>
  C9. \<^verbatim>\<open>#parseMessage\<close> does not invert \<^verbatim>\<open>#encodeReply\<close>: it takes bytes 2 to 5 as a
  masking key and unmasks from offset 6 on, while the encoded frame is unmasked with its
  payload at offset 2. The frame of the fixed reply \<^verbatim>\<open>Hello from a WebSocket Server!\<close>
  does not decode to the JSON text that was encoded.
\<close>

theorem encode_then_parse_differs:
  "\<exists>frame. encodeReply hello = Inr frame \<and> parseMessage frame \<noteq> JSON_stringify hello"
proof -
  let ?frame = "[0x81, 0x20, 0x22] @ ascii ''Hello from a WebSocket Server!'' @ [0x22]"
  have "0 < unat (byteAt ?frame 1 AND 127)"
    by (simp add: byteAt_def)
  then have "parseMessage ?frame ! 0 = fromCharCode (byteAt ?frame (6 + 0) XOR byteAt ?frame (2 + 0 mod 4))"
    by (rule nth_parseMessage)
  then have "parseMessage ?frame ! 0 = 0x4E"
    by (simp add: byteAt_def ascii_def fromCharCode_def)
  moreover have "JSON_stringify hello ! 0 = 0x22"
    by (simp add: JSON_stringify_def)
  ultimately have "parseMessage ?frame \<noteq> JSON_stringify hello"
    by auto
  then show ?thesis using hello_frame by blast
qed

section \<open>Properties of \<^verbatim>\<open>#generateServerReply\<close>\<close>

lemma isHttp_eq:
  "isHttp data = Inr (includes_str (hd (split_LF (toString data))) (lit ''HTTP/1.1''))"
  using split_LF_nonempty [of "toString data"]
  by (simp add: isHttp_def split: list.splits)

lemma isSocketUpgradeRequest_iff:
  "isSocketUpgradeRequest data \<longleftrightarrow>
     (\<exists>l \<in> set (split_LF (toString data)). includes_str l (lit ''Upgrade: websocket''))"
  by (simp add: isSocketUpgradeRequest_def isUpgrade_forEach_iff)

text \<open>
  C4. \<^verbatim>\<open>#generateServerReply\<close> puts every chunk in one of three classes and raises
  nothing. When the first line contains \<^verbatim>\<open>HTTP/1.1\<close> and some line contains
  \<^verbatim>\<open>Upgrade: websocket\<close>, the chunk is an upgrade request: the reply is the handshake
  string. When the first line contains \<^verbatim>\<open>HTTP/1.1\<close> and no line contains
  \<^verbatim>\<open>Upgrade: websocket\<close>, it is a plain HTTP request: the reply is \<^verbatim>\<open>null\<close>. When the
  first line does not contain \<^verbatim>\<open>HTTP/1.1\<close>, it is a data frame: the chunk is decoded
  and the reply is the frame of the fixed text. The console line names the class too.
\<close>

theorem generateServerReply_classifies:
  "(includes_str (hd (split_LF (toString data))) (lit ''HTTP/1.1'') \<and>
    (\<exists>l \<in> set (split_LF (toString data)). includes_str l (lit ''Upgrade: websocket'')) \<longrightarrow>
      generateServerReply data =
        Inr (lit ''WebSocketServer received a upgrade request: '' @ [LF] @ toString data,
             Str (generateHandshakeMsg data))) \<and>
   (includes_str (hd (split_LF (toString data))) (lit ''HTTP/1.1'') \<and>
    \<not> (\<exists>l \<in> set (split_LF (toString data)). includes_str l (lit ''Upgrade: websocket'')) \<longrightarrow>
      generateServerReply data =
        Inr (lit ''WebSocketServer received a HTTP request:'' @ [LF] @ lit '' '' @ toString data,
             Null)) \<and>
   (\<not> includes_str (hd (split_LF (toString data))) (lit ''HTTP/1.1'') \<longrightarrow>
      generateServerReply data =
        Inr (lit ''The server received some data: '' @ [LF] @ parseMessage data,
             Buf ([0x81, 0x20, 0x22] @ ascii ''Hello from a WebSocket Server!'' @ [0x22])))"
proof -
  have frame: "encodeReply (lit ''Hello from a WebSocket Server!'') =
                 Inr ([0x81, 0x20, 0x22] @ ascii ''Hello from a WebSocket Server!'' @ [0x22])"
    using hello_frame by (simp only: hello_def)
  show ?thesis
    unfolding generateServerReply_def isHttp_eq isSocketUpgradeRequest_iff frame
    by (simp add: Let_def)
qed

theorem generateServerReply_classifies_witness:
  "includes_str (hd (split_LF (toString upgradeRequest_sample))) (lit ''HTTP/1.1'') \<and>
   (\<exists>l \<in> set (split_LF (toString upgradeRequest_sample)). includes_str l (lit ''Upgrade: websocket'')) \<and>
   generateServerReply upgradeRequest_sample =
     Inr (lit ''WebSocketServer received a upgrade request: '' @ [LF] @ toString upgradeRequest_sample,
          Str (generateHandshakeMsg upgradeRequest_sample)) \<and>
   includes_str (hd (split_LF (toString plainRequest_sample))) (lit ''HTTP/1.1'') \<and>
   \<not> (\<exists>l \<in> set (split_LF (toString plainRequest_sample)). includes_str l (lit ''Upgrade: websocket'')) \<and>
   generateServerReply plainRequest_sample =
     Inr (lit ''WebSocketServer received a HTTP request:'' @ [LF] @ lit '' '' @ toString plainRequest_sample,
          Null) \<and>
   \<not> includes_str (hd (split_LF (toString frame_Hi))) (lit ''HTTP/1.1'') \<and>
   generateServerReply frame_Hi =
     Inr (lit ''The server received some data: '' @ [LF] @ parseMessage frame_Hi,
          Buf ([0x81, 0x20, 0x22] @ ascii ''Hello from a WebSocket Server!'' @ [0x22]))"
proof -
  have u1: "includes_str (hd (split_LF (toString upgradeRequest_sample))) (lit ''HTTP/1.1'')"
    by (simp add: lines_upgradeRequest_sample lit_def)
  have u2: "\<exists>l \<in> set (split_LF (toString upgradeRequest_sample)).
              includes_str l (lit ''Upgrade: websocket'')"
    by (simp add: lines_upgradeRequest_sample lit_def)
  have p1: "includes_str (hd (split_LF (toString plainRequest_sample))) (lit ''HTTP/1.1'')"
    by (simp add: lines_plainRequest_sample lit_def)
  have p2: "\<not> (\<exists>l \<in> set (split_LF (toString plainRequest_sample)).
                 includes_str l (lit ''Upgrade: websocket''))"
    by (simp add: lines_plainRequest_sample lit_def)
  have d1: "\<not> includes_str (hd (split_LF (toString frame_Hi))) (lit ''HTTP/1.1'')"
    by (simp add: lines_frame_Hi lit_def)
  show ?thesis
    using u1 u2 p1 p2 d1
      generateServerReply_classifies [of upgradeRequest_sample]
      generateServerReply_classifies [of plainRequest_sample]
      generateServerReply_classifies [of frame_Hi]
    by blast
qed

end
